theory Spec2Isabelle
  imports Complex_Main
begin

section \<open>Data model of backup-to-s3.py\<close>

text \<open>
  The script uploads backup archives of one directory to an S3 bucket. Paths are
  normalised path strings (as \<^verbatim>\<open>pathlib.Path\<close> keeps them), byte strings are
  \<^typ>\<open>string\<close>, Python's unbounded integers are \<^typ>\<open>int\<close>. A \<^verbatim>\<open>float\<close> is the
  rational number it denotes. A naive \<^verbatim>\<open>datetime\<close> is an integer: the microseconds of
  local wall-clock time since 1970-01-01 00:00:00, between \<^verbatim>\<open>datetime.min\<close> and
  \<^verbatim>\<open>datetime.max\<close>. Logging is observational only and is left out.
\<close>

type_synonym path = string

text \<open>Python exceptions deriving from \<^verbatim>\<open>Exception\<close>. A botocore \<^verbatim>\<open>ClientError\<close>
  carries the error code of the response; everything else the handlers treat alike.\<close>

datatype exn = ClientError string | OSError string | OtherError string

record BackupConfig =
  backup_dir :: path
  backup_extensions :: "string list"
  day_delta :: int
  s3_endpoint :: string
  s3_bucket :: string
  s3_access_key :: string
  s3_secret_key :: string
  s3_region :: string
  verify_ssl :: bool
  delete_after_upload :: bool
  max_workers :: int
  multipart_threshold :: int
  max_retries :: int

text \<open>The dictionary \<^verbatim>\<open>self.stats\<close> of \<^verbatim>\<open>S3BackupManager.__init__\<close>.\<close>

record stats =
  uploaded :: int
  skipped :: int
  failed :: int
  deleted :: int
  total_bytes :: int

definition init_stats :: stats where
  "init_stats = \<lparr>uploaded = 0, skipped = 0, failed = 0, deleted = 0, total_bytes = 0\<rparr>"

text \<open>A directory entry of the local file system: its bytes, its \<^verbatim>\<open>st_ctime\<close> (the
  float of \<^verbatim>\<open>os.stat_result\<close>, seconds since the epoch), whether it is a regular file,
  and whether the process is allowed to remove it (write permission on the directory).\<close>

record local_file =
  content :: string
  st_ctime :: rat
  is_file :: bool
  may_unlink :: bool

definition st_size :: "local_file \<Rightarrow> int" where
  "st_size f = int (length (content f))"

subsection \<open>External collaborators: boto3 and hashlib\<close>

text \<open>The part of a \<^verbatim>\<open>head_object\<close> response that the script reads.\<close>

record head_response =
  ETag :: string
  ContentLength :: int

text \<open>\<^verbatim>\<open>ExtraArgs\<close> of \<^verbatim>\<open>upload_file\<close>: the storage class and the two metadata entries;
  the upload date is the time stamp itself, not its ISO rendering.\<close>

record extra_args =
  StorageClass :: string
  original_path :: string
  upload_date :: int

text \<open>
  The boto3 client is a parameter. \<open>'r\<close> is the state of the remote store.
  \<^verbatim>\<open>head_object\<close> reads it; \<^verbatim>\<open>upload_file\<close> (file name, bucket, key, extra arguments,
  multipart threshold; it reads the local file itself) and \<^verbatim>\<open>delete_object\<close> may change
  it, and any of the three may raise.
\<close>

record 'r s3_client =
  s3_head_object :: "string \<Rightarrow> string \<Rightarrow> 'r \<Rightarrow> exn + head_response"
  s3_upload_file :: "path \<Rightarrow> string \<Rightarrow> string \<Rightarrow> extra_args \<Rightarrow> int \<Rightarrow>
                       (path \<rightharpoonup> local_file) \<Rightarrow> 'r \<Rightarrow> exn option \<times> 'r"
  s3_delete_object :: "string \<Rightarrow> string \<Rightarrow> 'r \<Rightarrow> exn option \<times> 'r"

text \<open>\<^verbatim>\<open>hashlib\<close> is a parameter too: \<^verbatim>\<open>new(algorithm)\<close>, \<^verbatim>\<open>update\<close>, \<^verbatim>\<open>hexdigest\<close>.\<close>

record 'h hashlib =
  hash_new :: "string \<Rightarrow> 'h"
  hash_update :: "'h \<Rightarrow> string \<Rightarrow> 'h"
  hexdigest :: "'h \<Rightarrow> string"

subsection \<open>The state a run works on\<close>

text \<open>Calls that reach the store or change the local file system, in the order made.\<close>

datatype call =
  HeadObject string
  | UploadFile path string
  | DeleteObject string
  | Unlink path

text \<open>
  The state: the local files, whether the backup directory exists and what listing it
  yields, the clock (\<^verbatim>\<open>datetime.now()\<close>), the conversion of a time stamp to local time
  (\<^verbatim>\<open>datetime.fromtimestamp\<close>, which depends on the time zone of the host and raises
  for a time stamp out of range), the remote store, \<^verbatim>\<open>self.stats\<close>, and the calls made.
\<close>

record 'r state =
  fs :: "path \<rightharpoonup> local_file"
  backup_dir_exists :: bool
  iterdir :: "exn + path list"
  now :: int
  fromtimestamp :: "rat \<Rightarrow> exn + int"
  remote :: 'r
  stats :: stats
  calls :: "call list"

definition record_call :: "call \<Rightarrow> 'r state \<Rightarrow> 'r state" where
  "record_call c s = s\<lparr>calls := calls s @ [c]\<rparr>"

section \<open>Helpers of the standard library\<close>

text \<open>\<^verbatim>\<open>str.strip(chars)\<close> for a single character.\<close>

definition strip :: "char \<Rightarrow> string \<Rightarrow> string" where
  "strip c s = rev (dropWhile (\<lambda>x. x = c) (rev (dropWhile (\<lambda>x. x = c) s)))"

text \<open>\<^verbatim>\<open>Path.name\<close>: the final component.\<close>

definition name :: "path \<Rightarrow> string" where
  "name p = rev (takeWhile (\<lambda>x. x \<noteq> CHR ''/'') (rev p))"

text \<open>\<^verbatim>\<open>Path.suffix\<close>: the name from its last dot on, unless that dot is the first or
  the last character of the name.\<close>

definition suffix :: "path \<Rightarrow> string" where
  "suffix p =
     (let n = name p; ext = takeWhile (\<lambda>x. x \<noteq> CHR ''.'') (rev n)
      in if CHR ''.'' \<in> set n \<and> ext \<noteq> [] \<and> length ext + 1 < length n
         then CHR ''.'' # rev ext else [])"

text \<open>\<^verbatim>\<open>datetime.min\<close> (0001-01-01 00:00:00) and \<^verbatim>\<open>datetime.max\<close>
  (9999-12-31 23:59:59.999999).\<close>

definition datetime_min :: int where
  "datetime_min = - 62135596800000000"

definition datetime_max :: int where
  "datetime_max = 253402300799999999"

text \<open>\<^verbatim>\<open>timedelta(days=n)\<close> in microseconds; it raises \<^verbatim>\<open>OverflowError\<close> beyond
  999999999 days.\<close>

definition timedelta_days :: "int \<Rightarrow> exn + int" where
  "timedelta_days n =
     (if - 999999999 \<le> n \<and> n \<le> 999999999 then Inr (n * 86400000000)
      else Inl (OtherError ''OverflowError''))"

text \<open>\<^verbatim>\<open>datetime - timedelta\<close>; it raises \<^verbatim>\<open>OverflowError\<close> when the result is not a
  \<^verbatim>\<open>datetime\<close>.\<close>

definition datetime_sub :: "int \<Rightarrow> int \<Rightarrow> exn + int" where
  "datetime_sub d delta =
     (if datetime_min \<le> d - delta \<and> d - delta \<le> datetime_max then Inr (d - delta)
      else Inl (OtherError ''OverflowError''))"

text \<open>\<^verbatim>\<open>Path.unlink\<close>.\<close>

definition unlink :: "path \<Rightarrow> 'r state \<Rightarrow> exn option \<times> 'r state" where
  "unlink p s =
     (case fs s p of
        None \<Rightarrow> (Some (OSError ''FileNotFoundError''), record_call (Unlink p) s)
      | Some f \<Rightarrow>
          if is_file f \<and> may_unlink f
          then (None, record_call (Unlink p) (s\<lparr>fs := (fs s)(p := None)\<rparr>))
          else (Some (OSError ''PermissionError''), record_call (Unlink p) s))"

section \<open>S3BackupManager\<close>

subsection \<open>\<^verbatim>\<open>_calculate_file_hash\<close>\<close>

text \<open>The loop \<^verbatim>\<open>for chunk in iter(lambda: f.read(8192), b'')\<close>.\<close>

function update_chunks :: "'h hashlib \<Rightarrow> 'h \<Rightarrow> string \<Rightarrow> 'h" where
  "update_chunks hl h bs =
     (if take 8192 bs = [] then h
      else update_chunks hl (hash_update hl h (take 8192 bs)) (drop 8192 bs))"
  by pat_completeness auto
termination
  by (relation "measure (\<lambda>(hl, h, bs). length bs)") auto

definition calculate_file_hash ::
  "'h hashlib \<Rightarrow> path \<Rightarrow> string \<Rightarrow> 'r state \<Rightarrow> exn + string" where
  "calculate_file_hash hl file_path algorithm s =
     (case fs s file_path of
        None \<Rightarrow> Inl (OSError ''FileNotFoundError'')
      | Some f \<Rightarrow>
          if \<not> is_file f then Inl (OSError ''IsADirectoryError'')
          else Inr (hexdigest hl (update_chunks hl (hash_new hl algorithm) (content f))))"

subsection \<open>\<^verbatim>\<open>_file_exists_in_s3\<close>\<close>

definition file_exists_in_s3 ::
  "'r s3_client \<Rightarrow> BackupConfig \<Rightarrow> string \<Rightarrow> 'r state \<Rightarrow>
     (exn + bool \<times> string option) \<times> 'r state" where
  "file_exists_in_s3 cl cfg key s =
     (let s' = record_call (HeadObject key) s
      in case s3_head_object cl (s3_bucket cfg) key (remote s) of
           Inr response \<Rightarrow> (Inr (True, Some (strip CHR ''\"'' (ETag response))), s')
         | Inl (ClientError code) \<Rightarrow>
             if code = ''404'' then (Inr (False, None), s')
             else (Inl (ClientError code), s')
         | Inl e \<Rightarrow> (Inl e, s'))"

subsection \<open>\<^verbatim>\<open>_verify_upload\<close>\<close>

text \<open>The body of the \<^verbatim>\<open>try\<close> block.\<close>

definition verify_body ::
  "'r s3_client \<Rightarrow> 'h hashlib \<Rightarrow> BackupConfig \<Rightarrow> path \<Rightarrow> string \<Rightarrow> 'r state \<Rightarrow>
     (exn + bool) \<times> 'r state" where
  "verify_body cl hl cfg file_path s3_key s =
     (case calculate_file_hash hl file_path ''md5'' s of
        Inl e \<Rightarrow> (Inl e, s)
      | Inr local_md5 \<Rightarrow>
          (let s' = record_call (HeadObject s3_key) s
           in case s3_head_object cl (s3_bucket cfg) s3_key (remote s) of
                Inl e \<Rightarrow> (Inl e, s')
              | Inr response \<Rightarrow>
                  (let s3_etag = strip CHR ''\"'' (ETag response)
                   in if CHR ''-'' \<in> set s3_etag
                      then (case fs s' file_path of
                              None \<Rightarrow> (Inl (OSError ''FileNotFoundError''), s')
                            | Some f \<Rightarrow> (Inr (st_size f = ContentLength response), s'))
                      else (Inr (local_md5 = s3_etag), s'))))"

text \<open>\<^verbatim>\<open>except Exception\<close>: every exception of the body becomes the verdict \<^verbatim>\<open>False\<close>.\<close>

definition verify_upload ::
  "'r s3_client \<Rightarrow> 'h hashlib \<Rightarrow> BackupConfig \<Rightarrow> path \<Rightarrow> string \<Rightarrow> 'r state \<Rightarrow>
     (exn + bool) \<times> 'r state" where
  "verify_upload cl hl cfg file_path s3_key s =
     (case verify_body cl hl cfg file_path s3_key s of
        (Inl e, s') \<Rightarrow> (Inr False, s')
      | (Inr verified, s') \<Rightarrow> (Inr verified, s'))"

subsection \<open>\<^verbatim>\<open>_upload_file\<close>\<close>

definition add_uploaded :: "int \<Rightarrow> 'r state \<Rightarrow> 'r state" where
  "add_uploaded file_size s =
     s\<lparr>stats := (stats s)\<lparr>uploaded := uploaded (stats s) + 1,
                           total_bytes := total_bytes (stats s) + file_size\<rparr>\<rparr>"

definition add_skipped :: "'r state \<Rightarrow> 'r state" where
  "add_skipped s = s\<lparr>stats := (stats s)\<lparr>skipped := skipped (stats s) + 1\<rparr>\<rparr>"

definition add_failed :: "'r state \<Rightarrow> 'r state" where
  "add_failed s = s\<lparr>stats := (stats s)\<lparr>failed := failed (stats s) + 1\<rparr>\<rparr>"

definition add_deleted :: "'r state \<Rightarrow> 'r state" where
  "add_deleted s = s\<lparr>stats := (stats s)\<lparr>deleted := deleted (stats s) + 1\<rparr>\<rparr>"

text \<open>
  The first part of the \<^verbatim>\<open>try\<close> block, lines 199 to 232: the existence check, the
  dry-run gate and the transfer. \<open>Inl e\<close>: the exception \<open>e\<close> was raised;
  \<open>Inr (Some b)\<close>: the method has returned \<open>b\<close>; \<open>Inr None\<close>: the transfer is done
  and the method goes on to the verification.
\<close>

definition transfer ::
  "'r s3_client \<Rightarrow> BackupConfig \<Rightarrow> path \<Rightarrow> string \<Rightarrow> bool \<Rightarrow> 'r state \<Rightarrow>
     (exn + bool option) \<times> 'r state" where
  "transfer cl cfg file_path s3_key dry_run s =
     (case file_exists_in_s3 cl cfg s3_key s of
        (Inl e, s1) \<Rightarrow> (Inl e, s1)
      | (Inr (exists, s3_etag), s1) \<Rightarrow>
          if exists then (Inr (Some False), add_skipped s1)
          else if dry_run then (Inr (Some False), s1)
          else
            (let args = \<lparr>StorageClass = ''STANDARD'', original_path = file_path,
                         upload_date = now s1\<rparr>;
                 s2 = record_call (UploadFile file_path s3_key) s1
             in case s3_upload_file cl file_path (s3_bucket cfg) s3_key args
                       (multipart_threshold cfg) (fs s1) (remote s1) of
                  (Some e, r) \<Rightarrow> (Inl e, s2\<lparr>remote := r\<rparr>)
                | (None, r) \<Rightarrow> (Inr None, s2\<lparr>remote := r\<rparr>)))"

text \<open>The second part, lines 234 to 251: verification, clean-up of a bad remote object,
  counting, local deletion.\<close>

definition verify_and_delete ::
  "'r s3_client \<Rightarrow> 'h hashlib \<Rightarrow> BackupConfig \<Rightarrow> path \<Rightarrow> string \<Rightarrow> int \<Rightarrow>
     'r state \<Rightarrow> (exn + bool) \<times> 'r state" where
  "verify_and_delete cl hl cfg file_path s3_key file_size s2 =
     (case verify_upload cl hl cfg file_path s3_key s2 of
        (Inl e, s3) \<Rightarrow> (Inl e, s3)
      | (Inr verified, s3) \<Rightarrow>
          if \<not> verified
          then (let s4 = record_call (DeleteObject s3_key) s3
                in case s3_delete_object cl (s3_bucket cfg) s3_key (remote s3) of
                     (Some e, r) \<Rightarrow> (Inl e, s4\<lparr>remote := r\<rparr>)
                   | (None, r) \<Rightarrow> (Inr False, s4\<lparr>remote := r\<rparr>))
          else (let s4 = add_uploaded file_size s3
                in if delete_after_upload cfg
                   then (case unlink file_path s4 of
                           (Some e, s5) \<Rightarrow> (Inl e, s5)
                         | (None, s5) \<Rightarrow> (Inr True, add_deleted s5))
                   else (Inr True, s4)))"

text \<open>The body of the \<^verbatim>\<open>try\<close> block, lines 199 to 251.\<close>

definition upload_body ::
  "'r s3_client \<Rightarrow> 'h hashlib \<Rightarrow> BackupConfig \<Rightarrow> path \<Rightarrow> string \<Rightarrow> int \<Rightarrow> bool \<Rightarrow>
     'r state \<Rightarrow> (exn + bool) \<times> 'r state" where
  "upload_body cl hl cfg file_path s3_key file_size dry_run s =
     (case transfer cl cfg file_path s3_key dry_run s of
        (Inl e, s2) \<Rightarrow> (Inl e, s2)
      | (Inr (Some result), s2) \<Rightarrow> (Inr result, s2)
      | (Inr None, s2) \<Rightarrow> verify_and_delete cl hl cfg file_path s3_key file_size s2)"

text \<open>
  The whole method. \<^verbatim>\<open>file_path.stat()\<close> of line 196 stands before the \<^verbatim>\<open>try\<close>: its
  exception leaves the method. Both handlers, \<^verbatim>\<open>except ClientError\<close> and
  \<^verbatim>\<open>except Exception\<close>, count a failure and return \<^verbatim>\<open>False\<close>.
\<close>

definition upload_file ::
  "'r s3_client \<Rightarrow> 'h hashlib \<Rightarrow> BackupConfig \<Rightarrow> path \<Rightarrow> bool \<Rightarrow> 'r state \<Rightarrow>
     (exn + bool) \<times> 'r state" where
  "upload_file cl hl cfg file_path dry_run s =
     (case fs s file_path of
        None \<Rightarrow> (Inl (OSError ''FileNotFoundError''), s)
      | Some f \<Rightarrow>
          (case upload_body cl hl cfg file_path (name file_path) (st_size f) dry_run s of
             (Inl e, s') \<Rightarrow> (Inr False, add_failed s')
           | (Inr result, s') \<Rightarrow> (Inr result, s')))"

subsection \<open>\<^verbatim>\<open>get_files_for_backup\<close>\<close>

text \<open>
  The loop of lines 272 to 277 over the directory entries, for a given cutoff date.
  \<^verbatim>\<open>is_file()\<close> is false for a path that does not exist. \<^verbatim>\<open>datetime.fromtimestamp\<close> is
  called only for a regular file with an accepted suffix; when it raises, the loop is
  left at that entry.
\<close>

fun filter_files :: "BackupConfig \<Rightarrow> 'r state \<Rightarrow> int \<Rightarrow> path list \<Rightarrow> exn + path list" where
  "filter_files cfg s cutoff_date [] = Inr []"
| "filter_files cfg s cutoff_date (file_path # entries) =
     (case fs s file_path of
        None \<Rightarrow> filter_files cfg s cutoff_date entries
      | Some f \<Rightarrow>
          if is_file f \<and> suffix file_path \<in> set (backup_extensions cfg)
          then (case fromtimestamp s (st_ctime f) of
                  Inl e \<Rightarrow> Inl e
                | Inr create_date \<Rightarrow>
                    (case filter_files cfg s cutoff_date entries of
                       Inl e \<Rightarrow> Inl e
                     | Inr files_for_backup \<Rightarrow>
                         Inr (if create_date \<ge> cutoff_date
                              then file_path # files_for_backup else files_for_backup)))
          else filter_files cfg s cutoff_date entries)"

text \<open>The sort key of line 279, \<^verbatim>\<open>f.stat().st_ctime\<close>: the time stamp as the file system
  gives it, not the local date of the filter.\<close>

definition ctime_key :: "'r state \<Rightarrow> path \<Rightarrow> rat" where
  "ctime_key s file_path = (case fs s file_path of None \<Rightarrow> 0 | Some f \<Rightarrow> st_ctime f)"

text \<open>
  The cutoff date of line 269 is computed before the directory is listed, and both the
  \<^verbatim>\<open>timedelta\<close> and the subtraction may raise. \<^verbatim>\<open>sorted\<close> is stable, as \<^const>\<open>sort_key\<close>
  is; its key function calls \<^verbatim>\<open>stat()\<close>, which raises for a missing file.
\<close>

definition get_files_for_backup :: "BackupConfig \<Rightarrow> 'r state \<Rightarrow> exn + path list" where
  "get_files_for_backup cfg s =
     (if \<not> backup_dir_exists s then Inr []
      else case timedelta_days (day_delta cfg) of
             Inl e \<Rightarrow> Inl e
           | Inr delta \<Rightarrow>
               (case datetime_sub (now s) delta of
                  Inl e \<Rightarrow> Inl e
                | Inr cutoff_date \<Rightarrow>
                    (case iterdir s of
                       Inl e \<Rightarrow> Inl e
                     | Inr entries \<Rightarrow>
                         (case filter_files cfg s cutoff_date entries of
                            Inl e \<Rightarrow> Inl e
                          | Inr files_for_backup \<Rightarrow>
                              if list_all (\<lambda>f. fs s f \<noteq> None) files_for_backup
                              then Inr (sort_key (ctime_key s) files_for_backup)
                              else Inl (OSError ''FileNotFoundError'')))))"

subsection \<open>\<^verbatim>\<open>run_backup\<close>\<close>

text \<open>
  The loop over the futures, for the callable \<open>task\<close> that was handed to
  \<^verbatim>\<open>executor.submit\<close>. \<^verbatim>\<open>future.result()\<close> re-raises the exception of the task; the
  handler of line 312 logs it and the loop goes on. The result of a task is not used.

  The tasks run one after the other, each to its end, in the order of submission: what
  a pool of one thread does, and one of the schedules of a larger pool. Threads that
  overlap, and what the unlocked \<^verbatim>\<open>self.stats[...] += 1\<close> of two of them may lose, are
  not described here.
\<close>

fun run_futures_of ::
  "(path \<Rightarrow> 'r state \<Rightarrow> (exn + bool) \<times> 'r state) \<Rightarrow> path list \<Rightarrow> 'r state \<Rightarrow> 'r state" where
  "run_futures_of task [] s = s"
| "run_futures_of task (file_path # files) s =
     (case task file_path s of
        (Inl e, s') \<Rightarrow> run_futures_of task files s'
      | (Inr result, s') \<Rightarrow> run_futures_of task files s')"

text \<open>The loop with the task of line 304, \<^verbatim>\<open>self._upload_file\<close>.\<close>

definition run_futures ::
  "'r s3_client \<Rightarrow> 'h hashlib \<Rightarrow> BackupConfig \<Rightarrow> bool \<Rightarrow> path list \<Rightarrow> 'r state \<Rightarrow> 'r state" where
  "run_futures cl hl cfg dry_run files s =
     run_futures_of (\<lambda>file_path. upload_file cl hl cfg file_path dry_run) files s"

text \<open>
  The method for a given task. \<^verbatim>\<open>sum(f.stat().st_size for f in files)\<close> of line 298
  raises for a missing file, and \<^verbatim>\<open>ThreadPoolExecutor(max_workers=n)\<close> raises
  \<^verbatim>\<open>ValueError\<close> for \<open>n \<le> 0\<close>, both before any task is submitted.
\<close>

definition run_backup_of ::
  "(path \<Rightarrow> 'r state \<Rightarrow> (exn + bool) \<times> 'r state) \<Rightarrow> BackupConfig \<Rightarrow> 'r state \<Rightarrow>
     (exn + bool) \<times> 'r state" where
  "run_backup_of task cfg s =
     (case get_files_for_backup cfg s of
        Inl e \<Rightarrow> (Inl e, s)
      | Inr files \<Rightarrow>
          if files = [] then (Inr True, s)
          else if \<not> list_all (\<lambda>f. fs s f \<noteq> None) files
          then (Inl (OSError ''FileNotFoundError''), s)
          else if max_workers cfg \<le> 0
          then (Inl (OtherError ''ValueError''), s)
          else (let s' = run_futures_of task files s
                in (Inr (failed (stats s') = 0), s')))"

definition run_backup ::
  "'r s3_client \<Rightarrow> 'h hashlib \<Rightarrow> BackupConfig \<Rightarrow> bool \<Rightarrow> 'r state \<Rightarrow>
     (exn + bool) \<times> 'r state" where
  "run_backup cl hl cfg dry_run s =
     run_backup_of (\<lambda>file_path. upload_file cl hl cfg file_path dry_run) cfg s"

section \<open>A store in memory and concrete runs\<close>

text \<open>
  Concrete collaborators, to run the definitions on explicit inputs. The store is an
  association list from keys to what \<^verbatim>\<open>head_object\<close> reports; a missing key is the
  error 404. \<open>plain_hashlib\<close> takes the bytes themselves as their digest.
\<close>

type_synonym mem_store = "(string \<times> head_response) list"

definition mem_head :: "string \<Rightarrow> string \<Rightarrow> mem_store \<Rightarrow> exn + head_response" where
  "mem_head bucket key r =
     (case map_of r key of None \<Rightarrow> Inl (ClientError ''404'') | Some response \<Rightarrow> Inr response)"

definition mem_delete :: "string \<Rightarrow> string \<Rightarrow> mem_store \<Rightarrow> exn option \<times> mem_store" where
  "mem_delete bucket key r = (None, filter (\<lambda>kv. fst kv \<noteq> key) r)"

text \<open>An upload that stores what it read.\<close>

definition mem_upload ::
  "path \<Rightarrow> string \<Rightarrow> string \<Rightarrow> extra_args \<Rightarrow> int \<Rightarrow> (path \<rightharpoonup> local_file) \<Rightarrow> mem_store \<Rightarrow>
     exn option \<times> mem_store" where
  "mem_upload file_name bucket key args threshold files r =
     (case files file_name of
        None \<Rightarrow> (Some (OSError ''FileNotFoundError''), r)
      | Some f \<Rightarrow>
          (None, (key, \<lparr>ETag = CHR ''\"'' # content f @ [CHR ''\"''],
                        ContentLength = st_size f\<rparr>) # r))"

text \<open>An upload that loses the last byte on the way and reports success.\<close>

definition lossy_upload ::
  "path \<Rightarrow> string \<Rightarrow> string \<Rightarrow> extra_args \<Rightarrow> int \<Rightarrow> (path \<rightharpoonup> local_file) \<Rightarrow> mem_store \<Rightarrow>
     exn option \<times> mem_store" where
  "lossy_upload file_name bucket key args threshold files r =
     (case files file_name of
        None \<Rightarrow> (Some (OSError ''FileNotFoundError''), r)
      | Some f \<Rightarrow>
          (None, (key, \<lparr>ETag = CHR ''\"'' # butlast (content f) @ [CHR ''\"''],
                        ContentLength = st_size f - 1\<rparr>) # r))"

definition mem_client :: "mem_store s3_client" where
  "mem_client = \<lparr>s3_head_object = mem_head, s3_upload_file = mem_upload,
                  s3_delete_object = mem_delete\<rparr>"

definition lossy_client :: "mem_store s3_client" where
  "lossy_client = \<lparr>s3_head_object = mem_head, s3_upload_file = lossy_upload,
                    s3_delete_object = mem_delete\<rparr>"

text \<open>A client whose \<^verbatim>\<open>head_object\<close> fails with a server error.\<close>

definition down_client :: "mem_store s3_client" where
  "down_client = \<lparr>s3_head_object = (\<lambda>bucket key r. Inl (ClientError ''500'')),
                   s3_upload_file = mem_upload, s3_delete_object = mem_delete\<rparr>"

definition plain_hashlib :: "string hashlib" where
  "plain_hashlib = \<lparr>hash_new = (\<lambda>algorithm. []), hash_update = (\<lambda>h chunk. h @ chunk),
                     hexdigest = (\<lambda>h. h)\<rparr>"

text \<open>A host on UTC: \<^verbatim>\<open>fromtimestamp\<close> rounds the time stamp to microseconds, half to
  even, and raises outside the range of \<^verbatim>\<open>datetime\<close>.\<close>

definition round_half_even :: "rat \<Rightarrow> int" where
  "round_half_even x =
     (let f = \<lfloor>x\<rfloor>; r = x - of_int f
      in if r < 1 / 2 then f else if 1 / 2 < r then f + 1
         else if even f then f else f + 1)"

definition utc_fromtimestamp :: "rat \<Rightarrow> exn + int" where
  "utc_fromtimestamp t =
     (let d = round_half_even (t * 1000000)
      in if datetime_min \<le> d \<and> d \<le> datetime_max then Inr d
         else Inl (OtherError ''OverflowError''))"

text \<open>The configuration of the script's documentation, and a directory holding one
  archive created at time 0.\<close>

definition cfg0 :: BackupConfig where
  "cfg0 = \<lparr>backup_dir = ''/var/db_backup'', backup_extensions = [''.7z'', ''.gz'', ''.zip''],
           day_delta = 3, s3_endpoint = ''https://storage'', s3_bucket = ''backup'',
           s3_access_key = ''k'', s3_secret_key = ''s'', s3_region = ''ru-1'',
           verify_ssl = False, delete_after_upload = True, max_workers = 3,
           multipart_threshold = 104857600, max_retries = 3\<rparr>"

definition archive :: local_file where
  "archive = \<lparr>content = ''data'', st_ctime = 0, is_file = True, may_unlink = True\<rparr>"

definition a_zip :: path where
  "a_zip = ''/var/db_backup/a.zip''"

definition b_zip :: path where
  "b_zip = ''/var/db_backup/b.zip''"

definition s0 :: "mem_store state" where
  "s0 = \<lparr>fs = [a_zip \<mapsto> archive], backup_dir_exists = True, iterdir = Inr [a_zip],
          now = 0, fromtimestamp = utc_fromtimestamp, remote = [], stats = init_stats,
          calls = []\<rparr>"


text \<open>Further inputs: the configuration without local deletion, an archive whose
  \<^verbatim>\<open>st_ctime\<close> lies after \<^verbatim>\<open>now\<close>, an archive in a directory the process may not
  write to, the archive already in the store (with a plain etag, with a multipart etag
  and with the etag of other content), a directory in the place of the archive, and a
  directory seen three days after \<^verbatim>\<open>a.zip\<close> and four days after \<^verbatim>\<open>b.zip\<close> were
  created.\<close>

definition cfg_keep :: BackupConfig where
  "cfg_keep = cfg0\<lparr>delete_after_upload := False\<rparr>"

definition late_archive :: local_file where
  "late_archive = archive\<lparr>st_ctime := 1\<rparr>"

definition s_late :: "mem_store state" where
  "s_late = s0\<lparr>fs := [a_zip \<mapsto> late_archive]\<rparr>"

definition locked_archive :: local_file where
  "locked_archive = archive\<lparr>may_unlink := False\<rparr>"

definition s_locked :: "mem_store state" where
  "s_locked = s0\<lparr>fs := [a_zip \<mapsto> locked_archive]\<rparr>"

definition plain_response :: head_response where
  "plain_response = \<lparr>ETag = ''\"data\"'', ContentLength = 4\<rparr>"

definition multipart_response :: head_response where
  "multipart_response = \<lparr>ETag = ''\"0f3a-2\"'', ContentLength = 4\<rparr>"

definition s_uploaded :: "mem_store state" where
  "s_uploaded = s0\<lparr>remote := [(''a.zip'', plain_response)]\<rparr>"

definition s_multipart :: "mem_store state" where
  "s_multipart = s0\<lparr>remote := [(''a.zip'', multipart_response)]\<rparr>"

definition other_response :: head_response where
  "other_response = \<lparr>ETag = ''\"dat0\"'', ContentLength = 4\<rparr>"

definition s_other :: "mem_store state" where
  "s_other = s0\<lparr>remote := [(''a.zip'', other_response)]\<rparr>"

definition folder :: local_file where
  "folder = archive\<lparr>is_file := False\<rparr>"

definition s_folder :: "mem_store state" where
  "s_folder = s_uploaded\<lparr>fs := [a_zip \<mapsto> folder]\<rparr>"


definition old_archive :: local_file where
  "old_archive = archive\<lparr>st_ctime := - 86400\<rparr>"

definition s_edge :: "mem_store state" where
  "s_edge = s0\<lparr>fs := [a_zip \<mapsto> archive, b_zip \<mapsto> old_archive],
                 iterdir := Inr [b_zip, a_zip], now := 259200000000\<rparr>"

section \<open>Notions the properties speak of\<close>

text \<open>The worker reached the verification of its upload and the verdict was \<^verbatim>\<open>True\<close>.\<close>

definition verification_passed ::
  "'r s3_client \<Rightarrow> 'h hashlib \<Rightarrow> BackupConfig \<Rightarrow> path \<Rightarrow> bool \<Rightarrow> 'r state \<Rightarrow> bool" where
  "verification_passed cl hl cfg file_path dry_run s \<longleftrightarrow>
     fs s file_path \<noteq> None \<and>
     fst (transfer cl cfg file_path (name file_path) dry_run s) = Inr None \<and>
     fst (verify_upload cl hl cfg file_path (name file_path)
            (snd (transfer cl cfg file_path (name file_path) dry_run s))) = Inr True"

text \<open>The MD5 digest of a byte string, \<^verbatim>\<open>hashlib.md5(data).hexdigest()\<close>: one
  \<^verbatim>\<open>update\<close> with all the bytes.\<close>

definition md5_hexdigest :: "'h hashlib \<Rightarrow> string \<Rightarrow> string" where
  "md5_hexdigest hl bs = hexdigest hl (hash_update hl (hash_new hl ''md5'') bs)"

text \<open>The size of a file where it exists.\<close>

definition size_of :: "'r state \<Rightarrow> path \<Rightarrow> int" where
  "size_of s file_path = (case fs s file_path of None \<Rightarrow> 0 | Some f \<Rightarrow> st_size f)"

text \<open>The sizes of the files a run counts as uploaded: those whose worker increments
  \<^verbatim>\<open>stats['uploaded']\<close>.\<close>

fun uploaded_sizes ::
  "'r s3_client \<Rightarrow> 'h hashlib \<Rightarrow> BackupConfig \<Rightarrow> bool \<Rightarrow> path list \<Rightarrow> 'r state \<Rightarrow> int list" where
  "uploaded_sizes cl hl cfg dry_run [] s = []"
| "uploaded_sizes cl hl cfg dry_run (file_path # files) s =
     (let s' = snd (upload_file cl hl cfg file_path dry_run s)
      in (if uploaded (stats s') = uploaded (stats s) + 1 then [size_of s file_path] else [])
         @ uploaded_sizes cl hl cfg dry_run files s')"

section \<open>Properties\<close>

subsection \<open>The loop and the method with the task of the script\<close>

lemma run_futures_Nil [simp]: "run_futures cl hl cfg dry_run [] s = s"
  by (simp add: run_futures_def)

lemma run_futures_Cons [simp]:
  "run_futures cl hl cfg dry_run (file_path # files) s =
     (case upload_file cl hl cfg file_path dry_run s of
        (Inl e, s') \<Rightarrow> run_futures cl hl cfg dry_run files s'
      | (Inr result, s') \<Rightarrow> run_futures cl hl cfg dry_run files s')"
  by (simp add: run_futures_def)

lemma run_backup_unfold:
  "run_backup cl hl cfg dry_run s =
     (case get_files_for_backup cfg s of
        Inl e \<Rightarrow> (Inl e, s)
      | Inr files \<Rightarrow>
          if files = [] then (Inr True, s)
          else if \<not> list_all (\<lambda>f. fs s f \<noteq> None) files
          then (Inl (OSError ''FileNotFoundError''), s)
          else if max_workers cfg \<le> 0
          then (Inl (OtherError ''ValueError''), s)
          else (Inr (failed (stats (run_futures cl hl cfg dry_run files s)) = 0),
                run_futures cl hl cfg dry_run files s))"
  by (simp add: run_backup_def run_backup_of_def run_futures_def Let_def split: sum.splits)

subsection \<open>What the verifier leaves behind\<close>

lemma file_exists_state:
  "snd (file_exists_in_s3 cl cfg k s) = record_call (HeadObject k) s"
  by (simp add: file_exists_in_s3_def Let_def split: sum.splits exn.splits)

lemma verify_body_state:
  "snd (verify_body cl hl cfg p k s) = s \<or>
   snd (verify_body cl hl cfg p k s) = record_call (HeadObject k) s"
  by (simp add: verify_body_def Let_def split: sum.splits option.splits)

lemma verify_upload_snd:
  "snd (verify_upload cl hl cfg p k s) = snd (verify_body cl hl cfg p k s)"
  by (simp add: verify_upload_def split: prod.splits sum.splits)

lemma verify_upload_state:
  "snd (verify_upload cl hl cfg p k s) = s \<or>
   snd (verify_upload cl hl cfg p k s) = record_call (HeadObject k) s"
  using verify_body_state [of cl hl cfg p k s] by (simp add: verify_upload_snd)

lemma verify_upload_verdict: "\<exists>b. fst (verify_upload cl hl cfg p k s) = Inr b"
  by (cases "verify_body cl hl cfg p k s"; cases "fst (verify_body cl hl cfg p k s)")
     (auto simp: verify_upload_def)

lemma hyphen_strip: "c \<noteq> x \<Longrightarrow> x \<in> set (strip c e) \<longleftrightarrow> x \<in> set e"
proof -
  assume c: "c \<noteq> x"
  have d: "x \<in> set (dropWhile (\<lambda>y. y = c) xs) \<longleftrightarrow> x \<in> set xs" for xs
    using c by (induction xs) auto
  show ?thesis by (simp add: strip_def d)
qed

text \<open>With a hash object that treats two updates as one update with the concatenation,
  and an empty update as none, the chunk loop is one update with all the bytes.\<close>

lemma update_chunks_one_update:
  assumes law: "\<And>h a b. hash_update hl (hash_update hl h a) b = hash_update hl h (a @ b)"
    and empty: "\<And>h. hash_update hl h [] = h"
  shows "update_chunks hl h bs = hash_update hl h bs"
proof (induction bs arbitrary: h rule: length_induct)
  case (1 bs)
  show ?case
  proof (cases "take 8192 bs = []")
    case True
    then have "bs = []" by (simp add: take_eq_Nil)
    then show ?thesis using empty by (subst update_chunks.simps) simp
  next
    case False
    then have "length (drop 8192 bs) < length bs" by (cases bs) auto
    then have ih: "update_chunks hl (hash_update hl h (take 8192 bs)) (drop 8192 bs) =
                     hash_update hl (hash_update hl h (take 8192 bs)) (drop 8192 bs)"
      using 1 by blast
    have "update_chunks hl h bs =
            update_chunks hl (hash_update hl h (take 8192 bs)) (drop 8192 bs)"
      using False by (subst update_chunks.simps) simp
    also have "\<dots> = hash_update hl h (take 8192 bs @ drop 8192 bs)"
      unfolding ih by (rule law)
    finally show ?thesis by simp
  qed
qed

subsection \<open>Failures and the run's verdict\<close>

text \<open>
  C1. A transfer that completes and then fails verification should count as a failure
  and make the run unsuccessful. The code does not count it: lines 235 to 239 delete the
  remote object and return without touching \<^verbatim>\<open>stats['failed']\<close>. With a store that loses
  the last byte of \<^verbatim>\<open>a.zip\<close>, the transfer succeeds, the verification says \<^verbatim>\<open>False\<close>,
  and \<^verbatim>\<open>run_backup\<close> still returns \<^verbatim>\<open>True\<close> with a failure count of 0.
\<close>

theorem verification_failure_not_counted:
  "fst (transfer lossy_client cfg0 a_zip (name a_zip) False s0) = Inr None \<and>
   fst (verify_upload lossy_client plain_hashlib cfg0 a_zip (name a_zip)
          (snd (transfer lossy_client cfg0 a_zip (name a_zip) False s0))) = Inr False \<and>
   fst (run_backup lossy_client plain_hashlib cfg0 False s0) = Inr True \<and>
   failed (stats (snd (run_backup lossy_client plain_hashlib cfg0 False s0))) = 0"
  by code_simp

text \<open>
  C2, as claimed: the per-file worker never writes a statistics counter. It does: on the
  one-archive directory the worker itself leaves other statistics than it found.
\<close>

theorem worker_writes_stats:
  "stats (snd (upload_file mem_client plain_hashlib cfg0 a_zip False s0)) \<noteq> stats s0"
  by code_simp

text \<open>
  C2, amended. The statistics are written by the per-file worker code itself, directly,
  while it runs; the orchestrator's own code writes no counter as it receives the results
  that the workers return. For every task that returns a result and leaves the
  statistics alone, the loop over the futures and the whole of \<^verbatim>\<open>run_backup\<close> leave the
  statistics as they were: what a run changes in them, its workers have written.
\<close>

theorem orchestrator_writes_no_counter:
  assumes "\<And>p t. \<exists>r. fst (task p t) = Inr r"
    and "\<And>p t. stats (snd (task p t)) = stats t"
  shows "stats (run_futures_of task files s) = stats s \<and>
         stats (snd (run_backup_of task cfg s)) = stats s"
proof -
  have loop: "stats (run_futures_of task fl t) = stats t" for fl t
  proof (induction fl arbitrary: t)
    case Nil
    show ?case by simp
  next
    case (Cons p fl)
    obtain r t' where tp: "task p t = (Inr r, t')"
      using assms(1) [of p t] by (cases "task p t") auto
    have "stats t' = stats t" using assms(2) [of p t] tp by simp
    then show ?case using tp Cons.IH [of t'] by simp
  qed
  show ?thesis
    using loop by (simp add: run_backup_of_def Let_def split: sum.splits)
qed

theorem orchestrator_writes_no_counter_witness:
  "stats (snd (run_backup_of (\<lambda>p t. (Inr False, record_call (HeadObject (name p)) t)) cfg0 s0)) =
     stats s0 \<and>
   calls (snd (run_backup_of (\<lambda>p t. (Inr False, record_call (HeadObject (name p)) t)) cfg0 s0)) =
     [HeadObject ''a.zip'']"
proof -
  have c: "calls (snd (run_backup_of (\<lambda>p t. (Inr False, record_call (HeadObject (name p)) t))
             cfg0 s0)) = [HeadObject ''a.zip'']"
    by code_simp
  have r: "\<exists>r. fst ((\<lambda>p t. (Inr False, record_call (HeadObject (name p)) t)) p t) = Inr r"
    for p :: path and t :: "mem_store state"
    by auto
  have w: "stats (snd ((\<lambda>p t. (Inr False, record_call (HeadObject (name p)) t)) p t)) = stats t"
    for p :: path and t :: "mem_store state"
    by (simp add: record_call_def)
  show ?thesis
    using orchestrator_writes_no_counter
      [of "\<lambda>p t. (Inr False, record_call (HeadObject (name p)) t)" "[]" s0 cfg0, OF r w] c
    by simp
qed

text \<open>
  C3. An exception that leaves the worker should be counted as a failure by the
  orchestrator. The handler of lines 312 and 313 only logs it. \<^verbatim>\<open>b.zip\<close> has vanished
  when its worker starts, so \<^verbatim>\<open>stat()\<close> of line 196 raises; the loop goes on and uploads
  \<^verbatim>\<open>a.zip\<close>, but the failure count stays 0.
\<close>

theorem worker_fault_not_counted:
  "fst (upload_file mem_client plain_hashlib cfg0 b_zip False s0) =
     Inl (OSError ''FileNotFoundError'') \<and>
   stats (run_futures mem_client plain_hashlib cfg0 False [b_zip, a_zip] s0) =
     \<lparr>uploaded = 1, skipped = 0, failed = 0, deleted = 1, total_bytes = 4\<rparr>"
  by code_simp

subsection \<open>The verifier\<close>

text \<open>
  C4, as claimed: an error of the store while the metadata is queried leaves the verifier
  as an exception. It does not: with a store that answers 500, the verifier returns
  \<^verbatim>\<open>False\<close>.
\<close>

theorem verify_swallows_store_error:
  "s3_head_object down_client (s3_bucket cfg0) (name a_zip) (remote s0) =
     Inl (ClientError ''500'') \<and>
   fst (verify_upload down_client plain_hashlib cfg0 a_zip (name a_zip) s0) = Inr False \<and>
   fst (verify_upload down_client plain_hashlib cfg0 a_zip (name a_zip) s0) \<noteq>
     Inl (ClientError ''500'')"
  by code_simp

text \<open>
  C4, amended. The verifier always returns a boolean verdict and has no exception path
  at all: every exception raised inside it becomes the verdict \<^verbatim>\<open>False\<close>. That is so
  when the local file is missing or is not a regular file, so that it cannot be hashed,
  and when querying the metadata raises; and nothing else raises inside it.
\<close>

theorem verify_upload_total:
  "(\<exists>b. fst (verify_upload cl hl cfg p k s) = Inr b) \<and>
   (fs s p = None \<longrightarrow> fst (verify_upload cl hl cfg p k s) = Inr False) \<and>
   (\<forall>f. fs s p = Some f \<and> \<not> is_file f \<longrightarrow> fst (verify_upload cl hl cfg p k s) = Inr False) \<and>
   (\<forall>e. s3_head_object cl (s3_bucket cfg) k (remote s) = Inl e \<longrightarrow>
        fst (verify_upload cl hl cfg p k s) = Inr False) \<and>
   (\<forall>e. fst (verify_body cl hl cfg p k s) = Inl e \<longrightarrow>
        fst (verify_upload cl hl cfg p k s) = Inr False) \<and>
   ((\<exists>e. fst (verify_body cl hl cfg p k s) = Inl e) \<longleftrightarrow>
      fs s p = None \<or> (\<exists>f. fs s p = Some f \<and> \<not> is_file f) \<or>
      (\<exists>e. s3_head_object cl (s3_bucket cfg) k (remote s) = Inl e))"
proof -
  have 1: "\<exists>b. fst (verify_upload cl hl cfg p k s) = Inr b"
    by (rule verify_upload_verdict)
  have 2: "fst (verify_upload cl hl cfg p k s) = Inr False" if "fs s p = None"
    using that by (simp add: verify_upload_def verify_body_def calculate_file_hash_def)
  have 3: "fst (verify_upload cl hl cfg p k s) = Inr False"
    if "fs s p = Some f \<and> \<not> is_file f" for f
    using that by (simp add: verify_upload_def verify_body_def calculate_file_hash_def)
  have 4: "fst (verify_upload cl hl cfg p k s) = Inr False"
    if "s3_head_object cl (s3_bucket cfg) k (remote s) = Inl e" for e
    using that by (simp add: verify_upload_def verify_body_def Let_def split: sum.splits)
  have 5: "fst (verify_upload cl hl cfg p k s) = Inr False"
    if "fst (verify_body cl hl cfg p k s) = Inl e" for e
    using that by (cases "verify_body cl hl cfg p k s") (simp add: verify_upload_def)
  have 6: "(\<exists>e. fst (verify_body cl hl cfg p k s) = Inl e) \<longleftrightarrow>
      fs s p = None \<or> (\<exists>f. fs s p = Some f \<and> \<not> is_file f) \<or>
      (\<exists>e. s3_head_object cl (s3_bucket cfg) k (remote s) = Inl e)"
    by (cases "fs s p"; cases "s3_head_object cl (s3_bucket cfg) k (remote s)")
       (auto simp: verify_body_def calculate_file_hash_def Let_def record_call_def)
  show ?thesis using 1 2 3 4 5 6 by blast
qed

theorem verify_upload_total_witness:
  "s3_head_object down_client (s3_bucket cfg0) ''a.zip'' (remote s0) =
     Inl (ClientError ''500'') \<and>
   fst (verify_upload down_client plain_hashlib cfg0 a_zip ''a.zip'' s0) = Inr False \<and>
   fs s_uploaded b_zip = None \<and>
   fst (verify_upload mem_client plain_hashlib cfg0 b_zip ''a.zip'' s_uploaded) = Inr False \<and>
   fs s_folder a_zip = Some folder \<and> \<not> is_file folder \<and>
   fst (verify_upload mem_client plain_hashlib cfg0 a_zip ''a.zip'' s_folder) = Inr False \<and>
   fst (verify_body mem_client plain_hashlib cfg0 a_zip ''a.zip'' s_folder) =
     Inl (OSError ''IsADirectoryError'')"
proof -
  have h: "s3_head_object down_client (s3_bucket cfg0) ''a.zip'' (remote s0) =
             Inl (ClientError ''500'')" by (simp add: down_client_def)
  have n: "fs s_uploaded b_zip = None" by code_simp
  have d: "fs s_folder a_zip = Some folder \<and> \<not> is_file folder" by code_simp
  have b: "fst (verify_body mem_client plain_hashlib cfg0 a_zip ''a.zip'' s_folder) =
             Inl (OSError ''IsADirectoryError'')" by code_simp
  show ?thesis
    using verify_upload_total [of down_client plain_hashlib cfg0 a_zip "''a.zip''" s0]
      verify_upload_total [of mem_client plain_hashlib cfg0 b_zip "''a.zip''" s_uploaded]
      verify_upload_total [of mem_client plain_hashlib cfg0 a_zip "''a.zip''" s_folder]
      h n d b
    by blast
qed

text \<open>
  C5. For a readable local file and a store that answers the metadata query, with a
  hash object that treats successive updates as one update with the concatenation (as
  \<^verbatim>\<open>hashlib\<close> documents): if the remote etag contains a hyphen, the verdict is true
  exactly when the local size equals the remote content length; otherwise exactly when
  the MD5 digest of the file's content equals the etag with its surrounding quotes
  stripped.
\<close>

theorem verify_upload_rule:
  assumes "\<And>h a b. hash_update hl (hash_update hl h a) b = hash_update hl h (a @ b)"
    and "\<And>h. hash_update hl h [] = h"
    and "fs s p = Some f" and "is_file f"
    and "s3_head_object cl (s3_bucket cfg) k (remote s) = Inr response"
  shows "fst (verify_upload cl hl cfg p k s) =
           Inr (if CHR ''-'' \<in> set (ETag response)
                then st_size f = ContentLength response
                else md5_hexdigest hl (content f) = strip CHR ''\"'' (ETag response))"
proof -
  have "update_chunks hl (hash_new hl ''md5'') (content f) =
          hash_update hl (hash_new hl ''md5'') (content f)"
    using assms(1,2) by (rule update_chunks_one_update)
  then have "calculate_file_hash hl p ''md5'' s = Inr (md5_hexdigest hl (content f))"
    using assms(3,4) by (simp add: calculate_file_hash_def md5_hexdigest_def)
  then show ?thesis
    using assms(3,5)
    by (simp add: verify_upload_def verify_body_def Let_def hyphen_strip record_call_def)
qed

theorem verify_upload_rule_witness:
  "fst (verify_upload mem_client plain_hashlib cfg0 a_zip ''a.zip'' s_uploaded) = Inr True \<and>
   fst (verify_upload mem_client plain_hashlib cfg0 a_zip ''a.zip'' s_multipart) = Inr True \<and>
   fst (verify_upload mem_client plain_hashlib cfg0 a_zip ''a.zip'' s_other) = Inr False"
proof -
  have l1: "hash_update plain_hashlib (hash_update plain_hashlib h a) b =
              hash_update plain_hashlib h (a @ b)" for h a b
    by (simp add: plain_hashlib_def)
  have l2: "hash_update plain_hashlib h [] = h" for h
    by (simp add: plain_hashlib_def)
  have f: "fs s_uploaded a_zip = Some archive" "fs s_multipart a_zip = Some archive"
    "fs s_other a_zip = Some archive"
    by (simp_all add: s_uploaded_def s_multipart_def s_other_def s0_def)
  have r: "is_file archive" by (simp add: archive_def)
  have h1: "s3_head_object mem_client (s3_bucket cfg0) ''a.zip'' (remote s_uploaded) =
              Inr plain_response"
    by (simp add: mem_client_def mem_head_def s_uploaded_def)
  have h2: "s3_head_object mem_client (s3_bucket cfg0) ''a.zip'' (remote s_multipart) =
              Inr multipart_response"
    by (simp add: mem_client_def mem_head_def s_multipart_def)
  have h3: "s3_head_object mem_client (s3_bucket cfg0) ''a.zip'' (remote s_other) =
              Inr other_response"
    by (simp add: mem_client_def mem_head_def s_other_def)
  have e1: "CHR ''-'' \<notin> set (ETag plain_response)" by code_simp
  have e2: "md5_hexdigest plain_hashlib (content archive) =
              strip CHR ''\"'' (ETag plain_response)" by code_simp
  have e3: "CHR ''-'' \<in> set (ETag multipart_response)" by code_simp
  have e4: "st_size archive = ContentLength multipart_response" by code_simp
  have e5: "CHR ''-'' \<notin> set (ETag other_response)" by code_simp
  have e6: "md5_hexdigest plain_hashlib (content archive) \<noteq>
              strip CHR ''\"'' (ETag other_response)" by code_simp
  show ?thesis
    using verify_upload_rule [of plain_hashlib, OF l1 l2 f(1) r h1]
      verify_upload_rule [of plain_hashlib, OF l1 l2 f(2) r h2]
      verify_upload_rule [of plain_hashlib, OF l1 l2 f(3) r h3] e1 e2 e3 e4 e5 e6
    by simp
qed

subsection \<open>What one worker changes\<close>

lemma verify_upload_frame:
  "fs (snd (verify_upload cl hl cfg p k s)) = fs s \<and>
   stats (snd (verify_upload cl hl cfg p k s)) = stats s \<and>
   remote (snd (verify_upload cl hl cfg p k s)) = remote s"
  using verify_upload_state [of cl hl cfg p k s] by (auto simp: record_call_def)

lemma transfer_fs: "fs (snd (transfer cl cfg p k dry s)) = fs s"
  by (simp add: transfer_def file_exists_in_s3_def Let_def record_call_def add_skipped_def
      split: sum.splits exn.splits prod.splits option.splits)

lemma transfer_stats:
  "stats (snd (transfer cl cfg p k dry s)) =
     (if fst (transfer cl cfg p k dry s) = Inr (Some False) \<and>
         (\<exists>response. s3_head_object cl (s3_bucket cfg) k (remote s) = Inr response)
      then (stats s)\<lparr>skipped := skipped (stats s) + 1\<rparr> else stats s)"
  by (simp add: transfer_def file_exists_in_s3_def Let_def record_call_def add_skipped_def
      split: sum.splits exn.splits prod.splits option.splits)


lemma transfer_dry:
  "snd (transfer cl cfg p k True s) = record_call (HeadObject k) s \<or>
   snd (transfer cl cfg p k True s) = add_skipped (record_call (HeadObject k) s)"
  by (simp add: transfer_def file_exists_in_s3_def Let_def
      split: sum.splits exn.splits prod.splits option.splits)

lemma transfer_dry_fst: "fst (transfer cl cfg p k True s) \<noteq> Inr None"
  by (simp add: transfer_def file_exists_in_s3_def Let_def
      split: sum.splits exn.splits prod.splits option.splits)

lemma vad_fs:
  "fs (snd (verify_and_delete cl hl cfg p k sz s)) =
     (if fst (verify_upload cl hl cfg p k s) = Inr True \<and> delete_after_upload cfg \<and>
         (\<exists>f. fs s p = Some f \<and> is_file f \<and> may_unlink f)
      then (fs s)(p := None) else fs s)"
proof -
  obtain v s3 where vs: "verify_upload cl hl cfg p k s = (v, s3)" by (cases "verify_upload cl hl cfg p k s")
  obtain b where b: "v = Inr b" using verify_upload_verdict [of cl hl cfg p k s] vs by auto
  have f3: "fs s3 = fs s" using verify_upload_frame [of cl hl cfg p k s] vs by simp
  show ?thesis using vs b f3
    by (auto simp: verify_and_delete_def Let_def record_call_def add_uploaded_def add_deleted_def
        unlink_def split: prod.splits option.splits)
qed

lemma vad_stats:
  "stats (snd (verify_and_delete cl hl cfg p k sz s)) =
     (if fst (verify_upload cl hl cfg p k s) = Inr True
      then (if delete_after_upload cfg \<and> (\<exists>f. fs s p = Some f \<and> is_file f \<and> may_unlink f)
            then (stats s)\<lparr>uploaded := uploaded (stats s) + 1,
                            total_bytes := total_bytes (stats s) + sz,
                            deleted := deleted (stats s) + 1\<rparr>
            else (stats s)\<lparr>uploaded := uploaded (stats s) + 1,
                            total_bytes := total_bytes (stats s) + sz\<rparr>)
      else stats s)"
proof -
  obtain v s3 where vs: "verify_upload cl hl cfg p k s = (v, s3)"
    by (cases "verify_upload cl hl cfg p k s")
  obtain b where b: "v = Inr b" using verify_upload_verdict [of cl hl cfg p k s] vs by auto
  have f3: "fs s3 = fs s" "stats s3 = stats s"
    using verify_upload_frame [of cl hl cfg p k s] vs by simp_all
  show ?thesis using vs b f3
    by (auto simp: verify_and_delete_def Let_def record_call_def add_uploaded_def add_deleted_def
        unlink_def split: prod.splits option.splits)
qed

lemma vad_raises:
  "isl (fst (verify_and_delete cl hl cfg p k sz s)) \<Longrightarrow>
   fst (verify_upload cl hl cfg p k s) = Inr True \<Longrightarrow>
   delete_after_upload cfg \<and> \<not> (\<exists>f. fs s p = Some f \<and> is_file f \<and> may_unlink f)"
proof -
  assume a: "isl (fst (verify_and_delete cl hl cfg p k sz s))"
    and t: "fst (verify_upload cl hl cfg p k s) = Inr True"
  obtain v s3 where vs: "verify_upload cl hl cfg p k s = (v, s3)"
    by (cases "verify_upload cl hl cfg p k s")
  have f3: "fs s3 = fs s"
    using verify_upload_frame [of cl hl cfg p k s] vs by simp
  show ?thesis using vs a t f3
    by (auto simp: verify_and_delete_def Let_def record_call_def add_uploaded_def add_deleted_def
        unlink_def split: prod.splits option.splits if_splits)
qed

lemma upload_file_fs:
  "fs (snd (upload_file cl hl cfg p dry s)) =
     (if verification_passed cl hl cfg p dry s \<and> delete_after_upload cfg \<and>
         (\<exists>f. fs s p = Some f \<and> is_file f \<and> may_unlink f)
      then (fs s)(p := None) else fs s)"
proof (cases "fs s p")
  case None
  then show ?thesis by (simp add: upload_file_def verification_passed_def)
next
  case (Some f)
  obtain r s2 where tr: "transfer cl cfg p (name p) dry s = (r, s2)"
    by (cases "transfer cl cfg p (name p) dry s")
  have f2: "fs s2 = fs s" using transfer_fs [of cl cfg p "name p" dry s] tr by simp
  show ?thesis
  proof (cases "r = Inr None")
    case True
    have "fs (snd (upload_file cl hl cfg p dry s)) =
            fs (snd (verify_and_delete cl hl cfg p (name p) (st_size f) s2))"
      using Some tr True
      by (simp add: upload_file_def upload_body_def add_failed_def split: prod.splits sum.splits)
    then show ?thesis
      using Some tr True f2 by (simp add: vad_fs verification_passed_def)
  next
    case False
    then have "fs (snd (upload_file cl hl cfg p dry s)) = fs s2"
      using Some tr
      by (auto simp: upload_file_def upload_body_def add_failed_def
          split: prod.splits sum.splits option.splits)
    then show ?thesis using False tr f2 by (simp add: verification_passed_def)
  qed
qed


lemma upload_file_outcomes:
  "stats (snd (upload_file cl hl cfg p dry s)) = stats s \<or>
   stats (snd (upload_file cl hl cfg p dry s)) =
     (stats s)\<lparr>skipped := skipped (stats s) + 1\<rparr> \<or>
   stats (snd (upload_file cl hl cfg p dry s)) =
     (stats s)\<lparr>failed := failed (stats s) + 1\<rparr> \<or>
   stats (snd (upload_file cl hl cfg p dry s)) =
     (stats s)\<lparr>uploaded := uploaded (stats s) + 1,
                 total_bytes := total_bytes (stats s) + size_of s p\<rparr> \<or>
   stats (snd (upload_file cl hl cfg p dry s)) =
     (stats s)\<lparr>uploaded := uploaded (stats s) + 1,
                 total_bytes := total_bytes (stats s) + size_of s p,
                 failed := failed (stats s) + 1\<rparr> \<or>
   stats (snd (upload_file cl hl cfg p dry s)) =
     (stats s)\<lparr>uploaded := uploaded (stats s) + 1,
                 total_bytes := total_bytes (stats s) + size_of s p,
                 deleted := deleted (stats s) + 1\<rparr>"
proof (cases "fs s p")
  case None
  then show ?thesis by (simp add: upload_file_def)
next
  case (Some f)
  obtain r s2 where tr: "transfer cl cfg p (name p) dry s = (r, s2)"
    by (cases "transfer cl cfg p (name p) dry s")
  have st2: "stats s2 = stats s \<or>
             (r = Inr (Some False) \<and> stats s2 = (stats s)\<lparr>skipped := skipped (stats s) + 1\<rparr>)"
    using transfer_stats [of cl cfg p "name p" dry s] tr by (auto split: if_splits)
  have sz: "size_of s p = st_size f" using Some by (simp add: size_of_def)
  show ?thesis
  proof (cases "r = Inr None")
    case True
    then have s2: "stats s2 = stats s" using st2 by auto
    obtain r' s5 where vad: "verify_and_delete cl hl cfg p (name p) (st_size f) s2 = (r', s5)"
      by (cases "verify_and_delete cl hl cfg p (name p) (st_size f) s2")
    have up: "stats (snd (upload_file cl hl cfg p dry s)) =
                (if isl r' then (stats s5)\<lparr>failed := failed (stats s5) + 1\<rparr> else stats s5)"
      using Some tr True vad
      by (cases r') (simp_all add: upload_file_def upload_body_def add_failed_def)
    have s5: "stats s5 = stats (snd (verify_and_delete cl hl cfg p (name p) (st_size f) s2))"
      using vad by simp
    have nd: "isl r' \<Longrightarrow> fst (verify_upload cl hl cfg p (name p) s2) = Inr True \<Longrightarrow>
              \<not> (delete_after_upload cfg \<and> (\<exists>f. fs s2 p = Some f \<and> is_file f \<and> may_unlink f))"
      using vad_raises [of cl hl cfg p "name p" "st_size f" s2] vad by auto
    show ?thesis
      using nd unfolding up s5 vad_stats s2 sz by (auto simp: )
  next
    case False
    then have "stats (snd (upload_file cl hl cfg p dry s)) =
                (if isl r then (stats s2)\<lparr>failed := failed (stats s2) + 1\<rparr> else stats s2)"
      using Some tr
      by (cases r) (auto simp: upload_file_def upload_body_def add_failed_def split: option.splits)
    then show ?thesis using st2 by auto
  qed
qed

lemma upload_file_dry:
  "fs (snd (upload_file cl hl cfg p True s)) = fs s \<and>
   remote (snd (upload_file cl hl cfg p True s)) = remote s \<and>
   (calls (snd (upload_file cl hl cfg p True s)) = calls s \<or>
    calls (snd (upload_file cl hl cfg p True s)) = calls s @ [HeadObject (name p)])"
proof (cases "fs s p")
  case None
  then show ?thesis by (simp add: upload_file_def)
next
  case (Some f)
  obtain r s2 where tr: "transfer cl cfg p (name p) True s = (r, s2)"
    by (cases "transfer cl cfg p (name p) True s")
  have r: "r \<noteq> Inr None" using transfer_dry_fst [of cl cfg p "name p" s] tr by simp
  have s2: "s2 = record_call (HeadObject (name p)) s \<or>
            s2 = add_skipped (record_call (HeadObject (name p)) s)"
    using transfer_dry [of cl cfg p "name p" s] tr by simp
  have "snd (upload_file cl hl cfg p True s) = s2 \<or>
        snd (upload_file cl hl cfg p True s) = add_failed s2"
    using Some tr r
    by (cases r) (auto simp: upload_file_def upload_body_def split: option.splits)
  then show ?thesis using s2
    by (auto simp: add_failed_def add_skipped_def record_call_def)
qed

lemma upload_file_both:
  assumes "uploaded (stats (snd (upload_file cl hl cfg p dry s))) = uploaded (stats s) + 1"
    and "failed (stats (snd (upload_file cl hl cfg p dry s))) = failed (stats s) + 1"
  shows "verification_passed cl hl cfg p dry s \<and> delete_after_upload cfg \<and>
         \<not> (\<exists>f. fs s p = Some f \<and> is_file f \<and> may_unlink f)"
proof (cases "fs s p")
  case None
  then show ?thesis using assms by (simp add: upload_file_def)
next
  case (Some f)
  obtain r s2 where tr: "transfer cl cfg p (name p) dry s = (r, s2)"
    by (cases "transfer cl cfg p (name p) dry s")
  have st2: "uploaded (stats s2) = uploaded (stats s)"
    using transfer_stats [of cl cfg p "name p" dry s] tr by (auto split: if_splits)
  have f2: "fs s2 = fs s" using transfer_fs [of cl cfg p "name p" dry s] tr by simp
  show ?thesis
  proof (cases "r = Inr None")
    case True
    then have s2: "stats s2 = stats s"
      using transfer_stats [of cl cfg p "name p" dry s] tr by (auto split: if_splits)
    obtain r' s5 where vad: "verify_and_delete cl hl cfg p (name p) (st_size f) s2 = (r', s5)"
      by (cases "verify_and_delete cl hl cfg p (name p) (st_size f) s2")
    have up: "stats (snd (upload_file cl hl cfg p dry s)) =
                (if isl r' then (stats s5)\<lparr>failed := failed (stats s5) + 1\<rparr> else stats s5)"
      using Some tr True vad
      by (cases r') (simp_all add: upload_file_def upload_body_def add_failed_def)
    have s5: "stats s5 = stats (snd (verify_and_delete cl hl cfg p (name p) (st_size f) s2))"
      using vad by simp
    have v: "fst (verify_upload cl hl cfg p (name p) s2) = Inr True"
      using assms(1) unfolding up s5 vad_stats s2 by (auto split: if_splits)
    have i: "isl r'"
      using assms(2) v unfolding up s5 vad_stats s2 by (auto split: if_splits)
    have "delete_after_upload cfg \<and> \<not> (\<exists>f. fs s2 p = Some f \<and> is_file f \<and> may_unlink f)"
      using vad_raises [of cl hl cfg p "name p" "st_size f" s2] vad i v by simp
    then show ?thesis
      using Some tr True v f2 by (simp add: verification_passed_def)
  next
    case False
    then have "stats (snd (upload_file cl hl cfg p dry s)) =
                (if isl r then (stats s2)\<lparr>failed := failed (stats s2) + 1\<rparr> else stats s2)"
      using Some tr
      by (cases r) (auto simp: upload_file_def upload_body_def add_failed_def split: option.splits)
    then show ?thesis using assms(1) st2 by (auto split: if_splits)
  qed
qed

subsection \<open>What a run changes\<close>

lemma run_futures_counts:
  "uploaded (stats (run_futures cl hl cfg dry files s)) =
     uploaded (stats s) + int (length (uploaded_sizes cl hl cfg dry files s)) \<and>
   total_bytes (stats (run_futures cl hl cfg dry files s)) =
     total_bytes (stats s) + sum_list (uploaded_sizes cl hl cfg dry files s) \<and>
   deleted (stats (run_futures cl hl cfg dry files s)) - deleted (stats s)
     \<le> uploaded (stats (run_futures cl hl cfg dry files s)) - uploaded (stats s)"
proof (induction files arbitrary: s)
  case Nil
  show ?case by simp
next
  case (Cons p files)
  let ?s' = "snd (upload_file cl hl cfg p dry s)"
  have step: "run_futures cl hl cfg dry (p # files) s = run_futures cl hl cfg dry files ?s'"
    by (simp split: prod.splits sum.splits)
  have none: "fs s p = None \<Longrightarrow> stats ?s' = stats s"
    by (simp add: upload_file_def)
  have sz: "fs s p = Some f \<Longrightarrow> size_of s p = st_size f" for f
    by (simp add: size_of_def)
  show ?case
    unfolding step
    using Cons.IH [of ?s'] upload_file_outcomes [of cl hl cfg p dry s] none sz
    by (cases "fs s p") (auto simp: Let_def)
qed

lemma run_futures_dry:
  "fs (run_futures cl hl cfg True files s) = fs s \<and>
   remote (run_futures cl hl cfg True files s) = remote s \<and>
   (\<exists>keys. calls (run_futures cl hl cfg True files s) = calls s @ map HeadObject keys)"
proof (induction files arbitrary: s)
  case Nil
  show ?case by simp
next
  case (Cons p files)
  let ?s' = "snd (upload_file cl hl cfg p True s)"
  have step: "run_futures cl hl cfg True (p # files) s = run_futures cl hl cfg True files ?s'"
    by (simp split: prod.splits sum.splits)
  obtain keys where keys: "calls (run_futures cl hl cfg True files ?s') = calls ?s' @ map HeadObject keys"
    using Cons.IH [of ?s'] by blast
  have "calls ?s' = calls s @ map HeadObject [] \<or> calls ?s' = calls s @ map HeadObject [name p]"
    using upload_file_dry [of cl hl cfg p s] by simp
  then have "\<exists>ks. calls (run_futures cl hl cfg True files ?s') = calls s @ map HeadObject ks"
    using keys by (metis append.assoc map_append)
  then show ?case
    unfolding step using Cons.IH [of ?s'] upload_file_dry [of cl hl cfg p s] by simp
qed


subsection \<open>What the selection yields\<close>

lemma filter_files_ok:
  assumes "\<And>p f. p \<in> set entries \<Longrightarrow> fs s p = Some f \<Longrightarrow> is_file f \<Longrightarrow>
             suffix p \<in> set (backup_extensions cfg) \<Longrightarrow>
             \<exists>d. fromtimestamp s (st_ctime f) = Inr d"
  shows "filter_files cfg s cutoff entries =
           Inr (filter (\<lambda>p. \<exists>f d. fs s p = Some f \<and> is_file f \<and>
                              suffix p \<in> set (backup_extensions cfg) \<and>
                              fromtimestamp s (st_ctime f) = Inr d \<and> cutoff \<le> d) entries)"
  using assms
proof (induction entries)
  case Nil
  show ?case by simp
next
  case (Cons p entries)
  have ih: "filter_files cfg s cutoff entries =
           Inr (filter (\<lambda>p. \<exists>f d. fs s p = Some f \<and> is_file f \<and>
                              suffix p \<in> set (backup_extensions cfg) \<and>
                              fromtimestamp s (st_ctime f) = Inr d \<and> cutoff \<le> d) entries)"
    using Cons.prems by (intro Cons.IH) auto
  show ?case
  proof (cases "fs s p")
    case None
    then show ?thesis using ih by simp
  next
    case (Some f)
    show ?thesis
    proof (cases "is_file f \<and> suffix p \<in> set (backup_extensions cfg)")
      case True
      then obtain d where "fromtimestamp s (st_ctime f) = Inr d"
        using Cons.prems [of p f] Some by auto
      then show ?thesis using Some True ih by simp
    next
      case False
      then show ?thesis using Some ih by auto
    qed
  qed
qed



text \<open>The date arithmetic of line 269 raises where the configured number of days, or
  the cutoff date, is out of range.\<close>

lemma get_files_overflow:
  assumes "backup_dir_exists s"
    and "\<not> (- 999999999 \<le> day_delta cfg \<and> day_delta cfg \<le> 999999999 \<and>
            datetime_min \<le> now s - day_delta cfg * 86400000000 \<and>
            now s - day_delta cfg * 86400000000 \<le> datetime_max)"
  shows "get_files_for_backup cfg s = Inl (OtherError ''OverflowError'')"
  using assms by (auto simp: get_files_for_backup_def timedelta_days_def datetime_sub_def)

lemma get_files_overflow_example:
  "get_files_for_backup (cfg0\<lparr>day_delta := 1000000000\<rparr>) s0 = Inl (OtherError ''OverflowError'') \<and>
   get_files_for_backup (cfg0\<lparr>day_delta := 800000\<rparr>) s0 = Inl (OtherError ''OverflowError'')"
  by code_simp

subsection \<open>Local deletion\<close>

text \<open>
  C6, as claimed: the local file is deleted if and only if the verification returned
  true. With \<^verbatim>\<open>delete_after_upload = false\<close> the verification of \<^verbatim>\<open>a.zip\<close> returns
  true and the local file stays.
\<close>

theorem verified_but_kept:
  "verification_passed mem_client plain_hashlib cfg_keep a_zip False s0 \<and>
   fs (snd (upload_file mem_client plain_hashlib cfg_keep a_zip False s0)) a_zip \<noteq> None"
  by code_simp

text \<open>
  C6, amended. A worker removes its local file if and only if the verification of its
  upload returned true, the configuration asks for deletion after upload, and the file
  system lets the file be removed; in every other case, a failed verification among them,
  the local file system is left as it was.
\<close>

theorem local_deletion_gated:
  "fs (snd (upload_file cl hl cfg p dry s)) =
     (if verification_passed cl hl cfg p dry s \<and> delete_after_upload cfg \<and>
         (\<exists>f. fs s p = Some f \<and> is_file f \<and> may_unlink f)
      then (fs s)(p := None) else fs s)"
  by (rule upload_file_fs)

theorem local_deletion_gated_witness:
  "fs (snd (upload_file mem_client plain_hashlib cfg0 a_zip False s0)) a_zip = None \<and>
   fs (snd (upload_file lossy_client plain_hashlib cfg0 a_zip False s0)) a_zip = Some archive"
proof -
  have 1: "verification_passed mem_client plain_hashlib cfg0 a_zip False s0" by code_simp
  have 2: "\<not> verification_passed lossy_client plain_hashlib cfg0 a_zip False s0" by code_simp
  have 3: "delete_after_upload cfg0" by (simp add: cfg0_def)
  have 4: "fs s0 a_zip = Some archive \<and> is_file archive \<and> may_unlink archive"
    by (simp add: s0_def archive_def)
  show ?thesis
    using local_deletion_gated [of mem_client plain_hashlib cfg0 a_zip False s0]
      local_deletion_gated [of lossy_client plain_hashlib cfg0 a_zip False s0] 1 2 3 4
    by auto
qed

subsection \<open>Keys already in the store\<close>



subsection \<open>Selection of the candidates\<close>

text \<open>
  C8, as claimed: a file is selected only if its creation time lies in
  \<open>[now - N days, now]\<close>. The code tests the lower end only: an archive whose creation
  time, one second after \<^verbatim>\<open>now\<close>, lies after \<^verbatim>\<open>now\<close> is selected.
\<close>

theorem future_file_selected:
  "get_files_for_backup cfg0 s_late = Inr [a_zip] \<and> fs s_late a_zip = Some late_archive \<and>
   fromtimestamp s_late (st_ctime late_archive) = Inr 1000000 \<and>
   \<not> 1000000 \<le> now s_late"
  by code_simp

text \<open>
  C8, amended. Where the backup directory exists and can be listed, the number of days
  and the cutoff date \<open>now - N days\<close> are in the range of \<^verbatim>\<open>timedelta\<close> and \<^verbatim>\<open>datetime\<close>,
  and the time stamp of every regular file with an accepted extension converts to a
  local date: a path is selected if and only if it is an entry of the directory, a
  regular file, its suffix (case-sensitive) is one of the accepted extensions, and its
  creation date is at least the cutoff date, that bound included; there is no upper
  bound. The result is ordered by the time stamps \<^verbatim>\<open>st_ctime\<close>.
\<close>

theorem selection_rule:
  assumes "backup_dir_exists s" and "iterdir s = Inr entries"
    and "- 999999999 \<le> day_delta cfg" and "day_delta cfg \<le> 999999999"
    and "datetime_min \<le> now s - day_delta cfg * 86400000000"
    and "now s - day_delta cfg * 86400000000 \<le> datetime_max"
    and "\<And>p f. p \<in> set entries \<Longrightarrow> fs s p = Some f \<Longrightarrow> is_file f \<Longrightarrow>
             suffix p \<in> set (backup_extensions cfg) \<Longrightarrow>
             \<exists>d. fromtimestamp s (st_ctime f) = Inr d"
  shows "\<exists>files. get_files_for_backup cfg s = Inr files \<and>
           sorted (map (ctime_key s) files) \<and>
           (\<forall>p. p \<in> set files \<longleftrightarrow>
                p \<in> set entries \<and>
                (\<exists>f create_date.
                   fs s p = Some f \<and> is_file f \<and> suffix p \<in> set (backup_extensions cfg) \<and>
                   fromtimestamp s (st_ctime f) = Inr create_date \<and>
                   now s - day_delta cfg * 86400000000 \<le> create_date))"
proof -
  let ?cutoff = "now s - day_delta cfg * 86400000000"
  let ?P = "\<lambda>p. \<exists>f d. fs s p = Some f \<and> is_file f \<and>
                     suffix p \<in> set (backup_extensions cfg) \<and>
                     fromtimestamp s (st_ctime f) = Inr d \<and> ?cutoff \<le> d"
  have ff: "filter_files cfg s ?cutoff entries = Inr (filter ?P entries)"
    using assms(7) by (rule filter_files_ok)
  have all: "list_all (\<lambda>f. fs s f \<noteq> None) (filter ?P entries)"
    by (auto simp: list_all_iff)
  have "get_files_for_backup cfg s = Inr (sort_key (ctime_key s) (filter ?P entries))"
    using assms(1-6) ff all
    by (simp add: get_files_for_backup_def timedelta_days_def datetime_sub_def)
  then show ?thesis by auto
qed

theorem selection_rule_witness:
  "fromtimestamp s_edge (st_ctime archive) = Inr (now s_edge - day_delta cfg0 * 86400000000) \<and>
   fromtimestamp s_edge (st_ctime old_archive) =
     Inr (now s_edge - (day_delta cfg0 + 1) * 86400000000) \<and>
   (\<exists>files. get_files_for_backup cfg0 s_edge = Inr files \<and> a_zip \<in> set files \<and>
            b_zip \<notin> set files)"
proof -
  have d: "backup_dir_exists s_edge" by code_simp
  have i: "iterdir s_edge = Inr [b_zip, a_zip]" by (simp add: s_edge_def)
  have r: "- 999999999 \<le> day_delta cfg0" "day_delta cfg0 \<le> 999999999"
    "datetime_min \<le> now s_edge - day_delta cfg0 * 86400000000"
    "now s_edge - day_delta cfg0 * 86400000000 \<le> datetime_max"
    by code_simp+
  have t: "fromtimestamp s_edge (st_ctime archive) =
             Inr (now s_edge - day_delta cfg0 * 86400000000)"
    "fromtimestamp s_edge (st_ctime old_archive) =
             Inr (now s_edge - (day_delta cfg0 + 1) * 86400000000)"
    by code_simp+
  have a: "fs s_edge a_zip = Some archive \<and> is_file archive \<and>
           suffix a_zip \<in> set (backup_extensions cfg0)" by code_simp
  have b: "fs s_edge b_zip = Some old_archive" by code_simp
  have o: "\<not> now s_edge - day_delta cfg0 * 86400000000
             \<le> now s_edge - (day_delta cfg0 + 1) * 86400000000" by simp
  have conv: "\<exists>d. fromtimestamp s_edge (st_ctime f) = Inr d"
    if "p \<in> set [b_zip, a_zip]" "fs s_edge p = Some f" "is_file f"
      "suffix p \<in> set (backup_extensions cfg0)" for p f
    using that a b t by auto
  have "\<exists>files. get_files_for_backup cfg0 s_edge = Inr files \<and>
           sorted (map (ctime_key s_edge) files) \<and>
           (\<forall>p. p \<in> set files \<longleftrightarrow>
                p \<in> set [b_zip, a_zip] \<and>
                (\<exists>f create_date.
                   fs s_edge p = Some f \<and> is_file f \<and>
                   suffix p \<in> set (backup_extensions cfg0) \<and>
                   fromtimestamp s_edge (st_ctime f) = Inr create_date \<and>
                   now s_edge - day_delta cfg0 * 86400000000 \<le> create_date))"
    by (rule selection_rule [OF d i r]) (rule conv, assumption+)
  then obtain files where fl: "get_files_for_backup cfg0 s_edge = Inr files"
    and m: "\<And>p. p \<in> set files \<longleftrightarrow>
                p \<in> set [b_zip, a_zip] \<and>
                (\<exists>f create_date.
                   fs s_edge p = Some f \<and> is_file f \<and>
                   suffix p \<in> set (backup_extensions cfg0) \<and>
                   fromtimestamp s_edge (st_ctime f) = Inr create_date \<and>
                   now s_edge - day_delta cfg0 * 86400000000 \<le> create_date)"
    by blast
  have "a_zip \<in> set files" using m [of a_zip] a t(1) by simp
  moreover have "b_zip \<notin> set files" using m [of b_zip] b t(2) o by simp
  ultimately show ?thesis using fl t by blast
qed

subsection \<open>Dry run\<close>

text \<open>
  C9. In a dry run nothing is uploaded, nothing is deleted in the store and the local
  file system is not changed: after the run, and after the workers of any list of files,
  the store and the local files are as before, and the only calls made are existence
  checks (\<^verbatim>\<open>head_object\<close>).
\<close>

theorem dry_run_changes_nothing:
  "fs (snd (run_backup cl hl cfg True s)) = fs s \<and>
   remote (snd (run_backup cl hl cfg True s)) = remote s \<and>
   (\<exists>keys. calls (snd (run_backup cl hl cfg True s)) = calls s @ map HeadObject keys) \<and>
   fs (run_futures cl hl cfg True files s) = fs s \<and>
   remote (run_futures cl hl cfg True files s) = remote s \<and>
   (\<exists>keys. calls (run_futures cl hl cfg True files s) = calls s @ map HeadObject keys)"
proof -
  have "\<exists>keys. calls s = calls s @ map HeadObject keys"
    by (rule exI [of _ "[]"]) simp
  then have "fs (snd (run_backup cl hl cfg True s)) = fs s \<and>
   remote (snd (run_backup cl hl cfg True s)) = remote s \<and>
   (\<exists>keys. calls (snd (run_backup cl hl cfg True s)) = calls s @ map HeadObject keys)"
    using run_futures_dry [of cl hl cfg _ s]
    by (simp add: run_backup_unfold split: sum.splits)
  then show ?thesis using run_futures_dry [of cl hl cfg files s] by simp
qed

subsection \<open>The counters\<close>

text \<open>
  C10, as claimed: a worker increments at most one of \<^verbatim>\<open>uploaded\<close>, \<^verbatim>\<open>skipped\<close> and
  \<^verbatim>\<open>failed\<close>. Where the process may not remove the archive, \<^verbatim>\<open>unlink\<close> raises after the
  upload has been counted, and the handler counts a failure as well.
\<close>

theorem uploaded_and_failed:
  "stats s_locked = \<lparr>uploaded = 0, skipped = 0, failed = 0, deleted = 0, total_bytes = 0\<rparr> \<and>
   stats (snd (upload_file mem_client plain_hashlib cfg0 a_zip False s_locked)) =
     \<lparr>uploaded = 1, skipped = 0, failed = 1, deleted = 0, total_bytes = 4\<rparr>"
  by code_simp

text \<open>
  C10, amended. A worker increments each counter by at most one; \<^verbatim>\<open>skipped\<close> never
  together with \<^verbatim>\<open>uploaded\<close> or \<^verbatim>\<open>failed\<close>; \<^verbatim>\<open>uploaded\<close> and \<^verbatim>\<open>failed\<close> together only when
  the verification passed, deletion after upload is configured and the local file cannot
  be removed; \<^verbatim>\<open>deleted\<close> only together with \<^verbatim>\<open>uploaded\<close>, and then not \<^verbatim>\<open>failed\<close>; and
  \<^verbatim>\<open>total_bytes\<close> grows by the file's size exactly when \<^verbatim>\<open>uploaded\<close> is incremented.
  Consequently a run adds to \<^verbatim>\<open>deleted\<close> no more than to \<^verbatim>\<open>uploaded\<close>, so
  \<^verbatim>\<open>deleted \<le> uploaded\<close> is kept, and it adds to \<^verbatim>\<open>total_bytes\<close> the sum of the sizes of
  the files it counts as uploaded.
\<close>

theorem counters_rule:
  fixes cl :: "'r s3_client" and hl :: "'h hashlib" and s :: "'r state"
    and cfg :: BackupConfig and p :: path and dry :: bool and files :: "path list"
  defines "st' \<equiv> stats (snd (upload_file cl hl cfg p dry s))"
    and "run \<equiv> stats (run_futures cl hl cfg dry files s)"
  shows "(st' = stats s \<or>
          st' = (stats s)\<lparr>skipped := skipped (stats s) + 1\<rparr> \<or>
          st' = (stats s)\<lparr>failed := failed (stats s) + 1\<rparr> \<or>
          st' = (stats s)\<lparr>uploaded := uploaded (stats s) + 1,
                          total_bytes := total_bytes (stats s) + size_of s p\<rparr> \<or>
          st' = (stats s)\<lparr>uploaded := uploaded (stats s) + 1,
                          total_bytes := total_bytes (stats s) + size_of s p,
                          failed := failed (stats s) + 1\<rparr> \<or>
          st' = (stats s)\<lparr>uploaded := uploaded (stats s) + 1,
                          total_bytes := total_bytes (stats s) + size_of s p,
                          deleted := deleted (stats s) + 1\<rparr>) \<and>
         (uploaded st' = uploaded (stats s) + 1 \<and> failed st' = failed (stats s) + 1 \<longrightarrow>
            verification_passed cl hl cfg p dry s \<and> delete_after_upload cfg \<and>
            \<not> (\<exists>f. fs s p = Some f \<and> is_file f \<and> may_unlink f)) \<and>
         (deleted (stats s) \<le> uploaded (stats s) \<longrightarrow> deleted run \<le> uploaded run) \<and>
         uploaded run = uploaded (stats s) + int (length (uploaded_sizes cl hl cfg dry files s)) \<and>
         total_bytes run =
           total_bytes (stats s) + sum_list (uploaded_sizes cl hl cfg dry files s)"
  unfolding st'_def run_def
  using upload_file_outcomes [of cl hl cfg p dry s] upload_file_both [of cl hl cfg p dry s]
    run_futures_counts [of cl hl cfg dry files s]
  by auto

theorem counters_rule_witness:
  "stats (snd (upload_file mem_client plain_hashlib cfg0 a_zip False s_locked)) =
     \<lparr>uploaded = 1, skipped = 0, failed = 1, deleted = 0, total_bytes = 4\<rparr> \<and>
   verification_passed mem_client plain_hashlib cfg0 a_zip False s_locked \<and>
   \<not> (\<exists>f. fs s_locked a_zip = Some f \<and> is_file f \<and> may_unlink f) \<and>
   deleted (stats (run_futures mem_client plain_hashlib cfg0 False [a_zip] s_locked))
     \<le> uploaded (stats (run_futures mem_client plain_hashlib cfg0 False [a_zip] s_locked))"
proof -
  have e: "stats (snd (upload_file mem_client plain_hashlib cfg0 a_zip False s_locked)) =
     \<lparr>uploaded = 1, skipped = 0, failed = 1, deleted = 0, total_bytes = 4\<rparr>" by code_simp
  have z: "stats s_locked = \<lparr>uploaded = 0, skipped = 0, failed = 0, deleted = 0, total_bytes = 0\<rparr>"
    by (simp add: s_locked_def s0_def init_stats_def)
  show ?thesis
    using counters_rule [of mem_client plain_hashlib cfg0 a_zip False s_locked "[a_zip]"] e z
    by simp
qed

end
